theory Spec2Isabelle
  imports Complex_Main "HOL-Library.Sublist" "HOL-Library.Multiset"
begin

section \<open>Strings\<close>

text \<open>
  Python's \<^verbatim>\<open>str\<close> is modelled by \<^typ>\<open>string\<close>, one \<^typ>\<open>char\<close> per code point, and
  \<^verbatim>\<open>len\<close> by \<^const>\<open>length\<close>. The character classes below are those Python assigns to the
  ASCII code points; the Unicode tables Python consults for code points beyond ASCII are
  not part of the model.
\<close>

definition is_space :: "char \<Rightarrow> bool" where
  \<comment> \<open>\<^verbatim>\<open>str.isspace\<close>, also the class \<^verbatim>\<open>\s\<close>: TAB, LF, VT, FF, CR, FS, GS, RS, US, SPACE\<close>
  "is_space c = (c \<in> set [CHR 0x09, CHR 0x0A, CHR 0x0B, CHR 0x0C, CHR 0x0D,
                            CHR 0x1C, CHR 0x1D, CHR 0x1E, CHR 0x1F, CHR 0x20])"

definition is_upper :: "char \<Rightarrow> bool" where
  "is_upper c = (c \<in> set ''ABCDEFGHIJKLMNOPQRSTUVWXYZ'')"

definition is_lower :: "char \<Rightarrow> bool" where
  "is_lower c = (c \<in> set ''abcdefghijklmnopqrstuvwxyz'')"

definition is_digit :: "char \<Rightarrow> bool" where
  "is_digit c = (c \<in> set ''0123456789'')"

definition is_alpha :: "char \<Rightarrow> bool" where
  "is_alpha c = (is_upper c \<or> is_lower c)"

definition is_word :: "char \<Rightarrow> bool" where
  \<comment> \<open>the class \<^verbatim>\<open>\w\<close>\<close>
  "is_word c = (is_alpha c \<or> is_digit c \<or> c = CHR ''_'')"

definition lower_char :: "char \<Rightarrow> char" where
  "lower_char c =
     (case map_of (zip ''ABCDEFGHIJKLMNOPQRSTUVWXYZ'' ''abcdefghijklmnopqrstuvwxyz'') c of
        Some d \<Rightarrow> d
      | None \<Rightarrow> c)"

definition lower :: "string \<Rightarrow> string" where
  \<comment> \<open>\<^verbatim>\<open>str.lower\<close>\<close>
  "lower s = map lower_char s"

definition strip :: "string \<Rightarrow> string" where
  \<comment> \<open>\<^verbatim>\<open>str.strip()\<close>\<close>
  "strip s = rev (dropWhile is_space (rev (dropWhile is_space s)))"

fun contains :: "string \<Rightarrow> string \<Rightarrow> bool" where
  \<comment> \<open>\<^verbatim>\<open>kw in t\<close>\<close>
  "contains kw [] = (kw = [])"
| "contains kw (c # cs) = (prefix kw (c # cs) \<or> contains kw cs)"


fun words_acc :: "string \<Rightarrow> string \<Rightarrow> string list" where
  "words_acc cur [] = (if cur = [] then [] else [rev cur])"
| "words_acc cur (c # cs) =
     (if is_space c
      then (if cur = [] then words_acc [] cs else rev cur # words_acc [] cs)
      else words_acc (c # cur) cs)"

definition split_ws :: "string \<Rightarrow> string list" where
  \<comment> \<open>\<^verbatim>\<open>s.split()\<close>: the maximal runs of non-whitespace characters\<close>
  "split_ws s = words_acc [] s"

fun split_acc :: "char \<Rightarrow> string \<Rightarrow> string \<Rightarrow> string list" where
  "split_acc sep cur [] = [rev cur]"
| "split_acc sep cur (c # cs) =
     (if c = sep then rev cur # split_acc sep [] cs else split_acc sep (c # cur) cs)"

definition split_lines :: "string \<Rightarrow> string list" where
  \<comment> \<open>\<^verbatim>\<open>s.split('\n')\<close>\<close>
  "split_lines s = split_acc (CHR 0x0A) [] s"

fun split2_acc :: "string \<Rightarrow> string \<Rightarrow> string list" where
  "split2_acc cur (a # b # cs) =
     (if a = CHR 0x0A \<and> b = CHR 0x0A then rev cur # split2_acc [] cs
      else split2_acc (a # cur) (b # cs))"
| "split2_acc cur [a] = [rev (a # cur)]"
| "split2_acc cur [] = [rev cur]"

definition split_paragraphs :: "string \<Rightarrow> string list" where
  \<comment> \<open>\<^verbatim>\<open>s.split('\n\n')\<close>: separators are found left to right and do not overlap\<close>
  "split_paragraphs s = split2_acc [] s"


definition slice_to :: "'a list \<Rightarrow> int \<Rightarrow> 'a list" where
  \<comment> \<open>\<^verbatim>\<open>xs[:k]\<close>; a negative \<open>k\<close> counts from the end\<close>
  "slice_to xs k = (if 0 \<le> k then take (nat k) xs else take (length xs - nat (- k)) xs)"

fun rfind_from :: "char \<Rightarrow> string \<Rightarrow> nat \<Rightarrow> int \<Rightarrow> int" where
  "rfind_from ch [] i found = found"
| "rfind_from ch (c # cs) i found = rfind_from ch cs (Suc i) (if c = ch then int i else found)"

definition rfind :: "string \<Rightarrow> char \<Rightarrow> int" where
  \<comment> \<open>\<^verbatim>\<open>s.rfind(ch)\<close>: the highest index of \<open>ch\<close>, or \<open>-1\<close>\<close>
  "rfind s ch = rfind_from ch s 0 (- 1)"

section \<open>Regular expressions\<close>

text \<open>
  The patterns of the source use literals, character classes, sequencing, alternation,
  greedy repetition and the assertions \<^verbatim>\<open>\b\<close>, \<^verbatim>\<open>^\<close> and \<^verbatim>\<open>$\<close>. A position is the character
  before the cursor (if any) and the input still to read. \<open>matches r p\<close> lists the
  positions at which a match of \<open>r\<close> begun at \<open>p\<close> can end, in the order in which a
  backtracking matcher tries them: the left alternative before the right one, one more
  repetition before stopping. The head of the list is the match the matcher reports.
\<close>

datatype rx = Eps | Cls "char \<Rightarrow> bool" | Seq rx rx | Alt rx rx | Star rx | Bow | Bol | Eol

type_synonym pos = "char option \<times> string"

fun matches :: "rx \<Rightarrow> pos \<Rightarrow> pos list" where
  "matches Eps p = [p]"
| "matches (Cls P) (prev, []) = []"
| "matches (Cls P) (prev, c # cs) = (if P c then [(Some c, cs)] else [])"
| "matches (Seq a b) p = concat (map (matches b) (matches a p))"
| "matches (Alt a b) p = matches a p @ matches b p"
| "matches (Star a) p =
     concat (map (\<lambda>q. if length (snd q) < length (snd p) then matches (Star a) q else [])
                 (matches a p)) @ [p]"
| "matches Bow (prev, rest) =
     (if (case prev of None \<Rightarrow> False | Some c \<Rightarrow> is_word c)
         \<noteq> (case rest of [] \<Rightarrow> False | c # _ \<Rightarrow> is_word c)
      then [(prev, rest)] else [])"
| "matches Bol (prev, rest) = (if prev = None then [(prev, rest)] else [])"
| "matches Eol (prev, rest) = (if rest = [] \<or> rest = [CHR 0x0A] then [(prev, rest)] else [])"

declare matches.simps(6) [simp del]

definition chr :: "char \<Rightarrow> rx" where
  "chr c = Cls (\<lambda>d. d = c)"

definition lit :: "string \<Rightarrow> rx" where
  "lit s = foldr (\<lambda>c r. Seq (chr c) r) s Eps"

fun seqs :: "rx list \<Rightarrow> rx" where
  "seqs [] = Eps"
| "seqs [r] = r"
| "seqs (r # rs) = Seq r (seqs rs)"

fun alts :: "rx list \<Rightarrow> rx" where
  "alts [] = Cls (\<lambda>c. False)"
| "alts [r] = r"
| "alts (r # rs) = Alt r (alts rs)"


definition plus :: "rx \<Rightarrow> rx" where
  \<comment> \<open>\<^verbatim>\<open>r+\<close>\<close>
  "plus r = Seq r (Star r)"



fun at_least :: "rx \<Rightarrow> nat \<Rightarrow> rx" where
  \<comment> \<open>\<^verbatim>\<open>r{m,}\<close>\<close>
  "at_least r 0 = Star r"
| "at_least r (Suc m) = Seq r (at_least r m)"


fun findall_from :: "rx \<Rightarrow> pos \<Rightarrow> string list" where
  "findall_from r (prev, rest) =
     (case matches r (prev, rest) of
        q # _ \<Rightarrow>
          (if length (snd q) < length rest
           then take (length rest - length (snd q)) rest # findall_from r q
           else [] # (case rest of [] \<Rightarrow> [] | c # cs \<Rightarrow> findall_from r (Some c, cs)))
      | [] \<Rightarrow> (case rest of [] \<Rightarrow> [] | c # cs \<Rightarrow> findall_from r (Some c, cs)))"

declare findall_from.simps [simp del]

definition findall :: "rx \<Rightarrow> string \<Rightarrow> string list" where
  \<comment> \<open>\<^verbatim>\<open>re.findall(r, s)\<close> for a pattern without groups: the matched texts, left to right\<close>
  "findall r s = findall_from r (None, s)"

section \<open>Relevance scorer (\<^verbatim>\<open>utils/ranker.py\<close>)\<close>

text \<open>
  Python's floats are modelled by \<^typ>\<open>rat\<close>: every finite float is a rational number, and
  the decimal constants of the source (\<^verbatim>\<open>0.3\<close>, \<^verbatim>\<open>0.5\<close>, ...) stand for the fractions they
  denote. The rounding of float arithmetic is not modelled.
\<close>

record ContentRanker =
  persona_role :: string
  job_task :: string

definition context_text :: "ContentRanker \<Rightarrow> string" where
  "context_text rk = persona_role rk @ '' '' @ job_task rk"

record persona_keywords =
  high :: "string list"
  medium :: "string list"
  low :: "string list"

record job_keywords =
  job_high :: "string list"
  job_medium :: "string list"

definition get_enhanced_persona_keywords :: "ContentRanker \<Rightarrow> persona_keywords" where
  "get_enhanced_persona_keywords rk =
     (if persona_role rk = ''Travel Planner'' then
        \<lparr>high = [''itinerary'', ''accommodation'', ''transportation'', ''attractions'',
                 ''budget'', ''booking'', ''schedule''],
         medium = [''travel'', ''trip'', ''vacation'', ''hotel'', ''restaurant'', ''activity'',
                   ''tour'', ''destination''],
         low = [''guide'', ''tips'', ''culture'', ''history'', ''food'', ''shopping'']\<rparr>
      else if persona_role rk = ''HR Professional'' then
        \<lparr>high = [''onboarding'', ''compliance'', ''workflow'', ''forms'', ''signatures'',
                 ''employee'', ''digital''],
         medium = [''management'', ''process'', ''document'', ''training'', ''policy'',
                   ''procedure''],
         low = [''create'', ''edit'', ''share'', ''convert'', ''export'']\<rparr>
      else if persona_role rk = ''Food Contractor'' then
        \<lparr>high = [''menu'', ''catering'', ''buffet'', ''corporate'', ''vegetarian'',
                 ''gluten-free'', ''dinner'', ''recipe''],
         medium = [''meal'', ''ingredient'', ''cooking'', ''preparation'', ''serving'',
                   ''nutrition''],
         low = [''breakfast'', ''lunch'', ''snack'', ''appetizer'', ''dessert'']\<rparr>
      else if persona_role rk = ''PhD Researcher'' then
        \<lparr>high = [''methodology'', ''dataset'', ''benchmark'', ''evaluation'', ''literature'',
                 ''review'', ''analysis''],
         medium = [''research'', ''study'', ''experiment'', ''result'', ''conclusion'',
                   ''hypothesis''],
         low = [''paper'', ''journal'', ''citation'', ''reference'', ''abstract'']\<rparr>
      else if persona_role rk = ''Investment Analyst'' then
        \<lparr>high = [''revenue'', ''profit'', ''investment'', ''market'', ''financial'',
                 ''analysis'', ''trend''],
         medium = [''company'', ''performance'', ''strategy'', ''growth'', ''risk'',
                   ''portfolio''],
         low = [''report'', ''quarter'', ''annual'', ''earnings'', ''stock'']\<rparr>
      else if persona_role rk = ''Student'' then
        \<lparr>high = [''exam'', ''study'', ''concept'', ''mechanism'', ''theory'', ''practice'',
                 ''preparation''],
         medium = [''chapter'', ''topic'', ''subject'', ''learning'', ''understand'',
                   ''knowledge''],
         low = [''textbook'', ''course'', ''class'', ''assignment'', ''homework'']\<rparr>
      else \<lparr>high = [], medium = [], low = []\<rparr>)"

definition action_rx :: rx where
  \<comment> \<open>\<^verbatim>\<open>\b(?:prepare|create|analyze|identify|summarize|review|plan|develop|design|build)\w*\b\<close>\<close>
  "action_rx =
     seqs [Bow,
           alts (map lit [''prepare'', ''create'', ''analyze'', ''identify'', ''summarize'',
                          ''review'', ''plan'', ''develop'', ''design'', ''build'']),
           Star (Cls is_word), Bow]"

definition domain_rx :: rx where
  \<comment> \<open>\<^verbatim>\<open>\b[a-zA-Z]{4,}\b\<close>\<close>
  "domain_rx = seqs [Bow, at_least (Cls is_alpha) 4, Bow]"

definition is_quote :: "char \<Rightarrow> bool" where
  "is_quote c = (c = CHR 0x22 \<or> c = CHR 0x27)"

definition quoted_rx :: rx where
  \<comment> \<open>\<^verbatim>\<open>["\']([^"\']+)["\']\<close>\<close>
  "quoted_rx = seqs [Cls is_quote, plus (Cls (\<lambda>c. \<not> is_quote c)), Cls is_quote]"

definition get_enhanced_job_keywords :: "ContentRanker \<Rightarrow> job_keywords" where
  \<comment> \<open>The only group of \<open>quoted_rx\<close> spans the match without its first and last
      character, which is what \<^verbatim>\<open>findall\<close> returns for it. \<^verbatim>\<open>list(set(xs))\<close> keeps one copy of
      each element in an order the source does not fix; the lists are only summed over.\<close>
  "get_enhanced_job_keywords rk =
     (let job_lower = lower (job_task rk);
          action_words = findall action_rx job_lower;
          domain_terms = findall domain_rx job_lower;
          medium_priority = filter (\<lambda>term. length term > 4) domain_terms;
          quoted_terms = map (\<lambda>m. butlast (tl m)) (findall quoted_rx (job_task rk));
          high_priority = action_words @ quoted_terms
      in \<lparr>job_high = remdups high_priority, job_medium = remdups medium_priority\<rparr>)"

definition persona_score :: "ContentRanker \<Rightarrow> string \<Rightarrow> int" where
  "persona_score rk text_lower =
     (let kws = get_enhanced_persona_keywords rk
      in sum_list (map (\<lambda>kw. 3) (filter (\<lambda>kw. contains kw text_lower) (high kws))) * 3
         + sum_list (map (\<lambda>kw. 2) (filter (\<lambda>kw. contains kw text_lower) (medium kws))) * 2
         + sum_list (map (\<lambda>kw. 1) (filter (\<lambda>kw. contains kw text_lower) (low kws))))"

definition job_score :: "ContentRanker \<Rightarrow> string \<Rightarrow> int" where
  "job_score rk text_lower =
     (let kws = get_enhanced_job_keywords rk
      in sum_list (map (\<lambda>kw. 5) (filter (\<lambda>kw. contains kw text_lower) (job_high kws))) * 5
         + sum_list (map (\<lambda>kw. 2) (filter (\<lambda>kw. contains kw text_lower) (job_medium kws))) * 2)"

definition any_in :: "string list \<Rightarrow> string \<Rightarrow> bool" where
  \<comment> \<open>\<^verbatim>\<open>any(term in t for term in terms)\<close>\<close>
  "any_in terms t = list_ex (\<lambda>term. contains term t) terms"

definition count_in :: "string list \<Rightarrow> string \<Rightarrow> int" where
  \<comment> \<open>\<^verbatim>\<open>sum(1 for term in terms if term in t)\<close>\<close>
  "count_in terms t = sum_list (map (\<lambda>term. 1) (filter (\<lambda>term. contains term t) terms))"

definition academic_terms :: "string list" where
  "academic_terms = [''methodology'', ''dataset'', ''benchmark'', ''evaluation'', ''literature'',
                     ''study'', ''research'', ''analysis'', ''experiment'']"

definition business_terms :: "string list" where
  "business_terms = [''revenue'', ''profit'', ''market'', ''financial'', ''growth'', ''strategy'',
                     ''investment'', ''performance'']"

definition travel_terms :: "string list" where
  "travel_terms = [''hotel'', ''restaurant'', ''attraction'', ''tour'', ''booking'', ''itinerary'',
                   ''destination'']"

definition vegetarian_terms :: "string list" where
  "vegetarian_terms = [''vegetarian'', ''vegan'', ''plant-based'', ''tofu'', ''beans'', ''lentils'',
                       ''quinoa'', ''vegetables'']"

definition meat_terms :: "string list" where
  "meat_terms = [''beef'', ''chicken'', ''pork'', ''lamb'', ''turkey'', ''fish'', ''salmon'',
                 ''tuna'', ''meat'', ''poultry'']"

definition gluten_free_terms :: "string list" where
  "gluten_free_terms = [''gluten-free'', ''gluten free'', ''rice'', ''corn'', ''quinoa'']"

definition gluten_terms :: "string list" where
  "gluten_terms = [''wheat'', ''flour'', ''bread'', ''pasta'', ''barley'', ''rye'']"

definition buffet_terms :: "string list" where
  "buffet_terms = [''buffet'', ''serving'', ''large batch'', ''crowd'', ''party'', ''catering'']"

definition context_rules :: "ContentRanker \<Rightarrow> string \<Rightarrow> string \<Rightarrow> int \<times> int" where
  \<comment> \<open>The rules between the keyword scores and the normalisation, in the order of the
      source; the result is \<open>(context_bonus, penalty)\<close>.\<close>
  "context_rules rk text_lower doc_lower =
     (let job = lower (job_task rk);
          role = lower (persona_role rk);
          context_bonus = 0;
          penalty = 0;
          context_bonus =
            (if contains ''dinner'' job \<and> contains ''dinner'' doc_lower
             then context_bonus + 5 else context_bonus);
          context_bonus =
            (if contains ''breakfast'' job \<and> contains ''breakfast'' doc_lower
             then context_bonus + 5 else context_bonus);
          context_bonus =
            (if contains ''lunch'' job \<and> contains ''lunch'' doc_lower
             then context_bonus + 5 else context_bonus);
          context_bonus =
            (if list_ex (\<lambda>term. contains term role)
                  [''researcher'', ''phd'', ''student'', ''academic'']
             then context_bonus + count_in academic_terms text_lower * 2 else context_bonus);
          context_bonus =
            (if list_ex (\<lambda>term. contains term role) [''analyst'', ''investment'', ''business'']
             then context_bonus + count_in business_terms text_lower * 2 else context_bonus);
          context_bonus =
            (if contains ''travel'' role
             then context_bonus + count_in travel_terms text_lower * 2 else context_bonus);
          context_bonus =
            (if contains ''vegetarian'' job \<and> any_in vegetarian_terms text_lower
             then context_bonus + 4 else context_bonus);
          penalty =
            (if contains ''vegetarian'' job \<and> any_in meat_terms text_lower
             then penalty - 8 else penalty);
          context_bonus =
            (if contains ''gluten-free'' job \<and> any_in gluten_free_terms text_lower
             then context_bonus + 3 else context_bonus);
          penalty =
            (if contains ''gluten-free'' job \<and> any_in gluten_terms text_lower
             then penalty - 4 else penalty);
          context_bonus =
            (if contains ''buffet'' job \<and> any_in buffet_terms text_lower
             then context_bonus + 2 else context_bonus);
          penalty =
            (if contains ''dinner'' job \<and> contains ''breakfast'' doc_lower
             then penalty - 3 else penalty);
          penalty =
            (if contains ''corporate'' job \<and> contains ''dessert'' text_lower
             then penalty - 1 else penalty)
      in (context_bonus, penalty))"

definition context_bonus :: "ContentRanker \<Rightarrow> string \<Rightarrow> string \<Rightarrow> int" where
  "context_bonus rk text_lower doc_lower = fst (context_rules rk text_lower doc_lower)"

definition penalty :: "ContentRanker \<Rightarrow> string \<Rightarrow> string \<Rightarrow> int" where
  "penalty rk text_lower doc_lower = snd (context_rules rk text_lower doc_lower)"

definition weighted_sum :: "ContentRanker \<Rightarrow> string \<Rightarrow> string \<Rightarrow> rat" where
  \<comment> \<open>the numerator of \<^verbatim>\<open>total_score\<close>: the composite score before length normalisation\<close>
  "weighted_sum rk text_lower doc_lower =
     of_int (persona_score rk text_lower) * (3 / 10)
     + of_int (job_score rk text_lower) * (5 / 10)
     + of_int (context_bonus rk text_lower doc_lower) * (2 / 10)
     + of_int (penalty rk text_lower doc_lower)"

definition text_length :: "string \<Rightarrow> rat" where
  \<comment> \<open>\<^verbatim>\<open>max(len(text.split()) / 100, 1)\<close>\<close>
  "text_length t = max (of_nat (length (split_ws t)) / 100) 1"

definition calculate_enhanced_relevance_score :: "ContentRanker \<Rightarrow> string \<Rightarrow> string \<Rightarrow> rat" where
  "calculate_enhanced_relevance_score rk t document_name =
     (let text_lower = lower t;
          doc_lower = lower document_name;
          total_score = weighted_sum rk text_lower doc_lower / text_length t
      in max total_score 0)"

section \<open>Ranker (\<^verbatim>\<open>utils/ranker.py\<close>)\<close>

text \<open>
  A section is a Python dict. The pipeline creates it with the keys \<^verbatim>\<open>page_number\<close>,
  \<^verbatim>\<open>text\<close>, \<^verbatim>\<open>section_title\<close> and \<^verbatim>\<open>source\<close>, adds \<^verbatim>\<open>document\<close>, and the ranker adds
  \<^verbatim>\<open>relevance_score\<close> and \<^verbatim>\<open>importance_rank\<close>. The ranker reads \<^verbatim>\<open>document\<close> and
  \<^verbatim>\<open>section_title\<close> with \<^verbatim>\<open>.get\<close> and a default, so these keys may be absent. The key
  \<^verbatim>\<open>text\<close> is the field \<open>section_text\<close>.

  \<^verbatim>\<open>rank_sections\<close> updates the dicts it is given in place and returns a new list of the same
  dicts. A store maps references to section records; the argument and the result are lists
  of references, and the function returns the updated store.

  The term-vector similarities come from scikit-learn inside a \<^verbatim>\<open>try\<close> block; that block is
  the parameter \<open>vectorize\<close>, which yields the similarities or the exception raised.
  \<^verbatim>\<open>x['relevance_score']\<close> in the sort key raises \<^verbatim>\<open>KeyError\<close> on a dict without that key.
  \<^verbatim>\<open>sorted\<close> is stable, also with \<^verbatim>\<open>reverse=True\<close>: it is \<open>sort_key\<close> on the negated score.
\<close>

datatype error = KeyError | VectorizerError

type_synonym ref = nat

record section_dict =
  document :: "string option"
  page_number :: nat
  section_text :: string
  section_title :: "string option"
  source :: string
  relevance_score :: "rat option"
  importance_rank :: "nat option"

type_synonym store = "ref \<Rightarrow> section_dict"

definition get_or :: "'a option \<Rightarrow> 'a \<Rightarrow> 'a" where
  "get_or v d = (case v of None \<Rightarrow> d | Some x \<Rightarrow> x)"

definition title_quality :: "string \<Rightarrow> bool" where
  "title_quality title = (length (split_ws title) \<ge> 2 \<and> \<not> prefix ''Content'' title)"

definition score_section :: "ContentRanker \<Rightarrow> rat list \<Rightarrow> nat \<Rightarrow> section_dict \<Rightarrow> section_dict" where
  "score_section rk tfidf_similarities i s =
     (let tfidf_score = (if i < length tfidf_similarities then tfidf_similarities ! i else 0);
          keyword_score =
            calculate_enhanced_relevance_score rk (section_text s) (get_or (document s) []);
          score = tfidf_score * (4 / 10) + keyword_score * (6 / 10);
          title = get_or (section_title s) [];
          score = (if title_quality title then score + 1 / 10 else score)
      in s\<lparr>relevance_score := Some score\<rparr>)"

fun score_loop :: "ContentRanker \<Rightarrow> rat list \<Rightarrow> nat \<Rightarrow> ref list \<Rightarrow> store \<Rightarrow> store" where
  "score_loop rk sims i [] h = h"
| "score_loop rk sims i (r # rs) h =
     score_loop rk sims (Suc i) rs (h(r := score_section rk sims i (h r)))"

fun rank_loop :: "nat \<Rightarrow> ref list \<Rightarrow> store \<Rightarrow> store" where
  "rank_loop rank [] h = h"
| "rank_loop rank (r # rs) h =
     rank_loop (Suc rank) rs (h(r := (h r)\<lparr>importance_rank := Some rank\<rparr>))"

definition rank_sections ::
  "(string list \<Rightarrow> error + rat list) \<Rightarrow> ContentRanker \<Rightarrow> ref list \<Rightarrow> store
     \<Rightarrow> error + store \<times> ref list" where
  "rank_sections vectorize rk document_sections h =
     (if document_sections = [] then Inr (h, [])
      else
        let section_texts = map (\<lambda>r. section_text (h r)) document_sections;
            all_texts = section_texts @ [context_text rk];
            tfidf_similarities =
              (case vectorize all_texts of
                 Inr similarities \<Rightarrow> similarities
               | Inl e \<Rightarrow> replicate (length section_texts) 0);
            h1 = score_loop rk tfidf_similarities 0 document_sections h
        in if list_ex (\<lambda>r. relevance_score (h1 r) = None) document_sections then Inl KeyError
           else
             let ranked_sections =
                   sort_key (\<lambda>r. - get_or (relevance_score (h1 r)) 0) document_sections;
                 h2 = rank_loop 1 ranked_sections h1
             in Inr (h2, ranked_sections))"

section \<open>Subsection refiner (\<^verbatim>\<open>utils/ranker.py\<close>)\<close>

text \<open>
  \<open>assemble\<close> is the loop over the sorted paragraphs, with its \<^verbatim>\<open>break\<close>. The source compares
  \<^verbatim>\<open>last_sentence\<close> with the float \<^verbatim>\<open>remaining * 0.7\<close>; the model compares with the exact
  product.
\<close>

fun assemble :: "int \<Rightarrow> string \<Rightarrow> (rat \<times> string) list \<Rightarrow> string" where
  "assemble max_length result_text [] = result_text"
| "assemble max_length result_text ((score, paragraph) # rest) =
     (if int (length result_text) + int (length paragraph) \<le> max_length
      then assemble max_length (result_text @ paragraph @ [CHR 0x0A, CHR 0x0A]) rest
      else
        (let remaining = max_length - int (length result_text)
         in if remaining > 100
            then (let partial = slice_to paragraph remaining;
                      last_sentence = rfind partial (CHR ''.'')
                  in if (of_int last_sentence :: rat) > of_int remaining * (7 / 10)
                     then result_text @ slice_to partial (last_sentence + 1)
                     else result_text @ partial @ ''...'')
            else result_text))"

definition extract_refined_subsection :: "ContentRanker \<Rightarrow> string \<Rightarrow> int \<Rightarrow> string" where
  "extract_refined_subsection rk t max_length =
     (if int (length t) \<le> max_length then strip t
      else
        (let paragraphs = filter (\<lambda>p. p \<noteq> []) (map strip (split_paragraphs t));
             paragraphs = (if paragraphs = []
                           then filter (\<lambda>p. p \<noteq> []) (map strip (split_lines t))
                           else paragraphs);
             best_paragraphs =
               map (\<lambda>paragraph. (calculate_enhanced_relevance_score rk paragraph [], paragraph))
                   (filter (\<lambda>paragraph. length paragraph > 30) paragraphs);
             best_paragraphs = sort_key (\<lambda>x. - fst x) best_paragraphs;
             result_text = assemble max_length [] best_paragraphs;
             stripped = strip result_text
         in if stripped \<noteq> [] then stripped else slice_to t max_length @ ''...''))"

section \<open>Text extractor (\<^verbatim>\<open>utils/text_extractor.py\<close>)\<close>











record detected_section =
  title :: string
  content :: string
  line_number :: nat


















section \<open>Auxiliary definitions for the proofs\<close>

text \<open>The least number of characters a match of a pattern consumes.\<close>

fun minlen :: "rx \<Rightarrow> nat" where
  "minlen Eps = 0"
| "minlen (Cls P) = 1"
| "minlen (Seq a b) = minlen a + minlen b"
| "minlen (Alt a b) = min (minlen a) (minlen b)"
| "minlen (Star a) = 0"
| "minlen Bow = 0"
| "minlen Bol = 0"
| "minlen Eol = 0"

text \<open>The keywords and terms whose presence in a text the scorer looks at.\<close>

definition scored_keywords :: "ContentRanker \<Rightarrow> string list" where
  "scored_keywords rk =
     (let pk = get_enhanced_persona_keywords rk; jk = get_enhanced_job_keywords rk
      in high pk @ medium pk @ low pk @ job_high jk @ job_medium jk)"


text \<open>Two rankers used as concrete inputs.\<close>

definition food_contractor_ranker :: ContentRanker where
  "food_contractor_ranker = \<lparr>persona_role = ''Food Contractor'', job_task = ''Prepare a vegetarian dinner menu''\<rparr>"


text \<open>
  What \<open>score_section\<close> stores when every similarity is 0, and the fields of a section that
  the ranker does not write.
\<close>

definition keyword_only_score :: "ContentRanker \<Rightarrow> section_dict \<Rightarrow> rat" where
  "keyword_only_score rk s =
     6 / 10 * calculate_enhanced_relevance_score rk (section_text s) (get_or (document s) [])
     + (if title_quality (get_or (section_title s) []) then 1 / 10 else 0)"

definition same_content :: "section_dict \<Rightarrow> section_dict \<Rightarrow> bool" where
  "same_content a b =
     (document a = document b \<and> page_number a = page_number b \<and>
      section_text a = section_text b \<and> section_title a = section_title b \<and>
      source a = source b)"

definition example_store :: store where
  "example_store = (\<lambda>r.
     \<lparr>document = Some (if r = 0 then ''Breakfast Ideas.pdf'' else ''Dinner Party Menu.pdf''),
      page_number = 1,
      section_text = (if r = 0 then ''Scrambled Eggs. Quick and easy breakfast.''
                      else if r = 1 then ''Grilled Salmon with Vegetables. A vegetarian-friendly dinner option.''
                      else ''Lentil Soup. A vegetarian dinner classic.''),
      section_title = Some (if r = 0 then ''Scrambled Eggs'' else if r = 1 then ''Grilled Salmon with Vegetables''
                      else ''Content Section''),
      source = (if r = 2 then ''page_content'' else ''detected_section''),
      relevance_score = None,
      importance_rank = None\<rparr>)"



section \<open>Properties of the regular expressions\<close>

lemma matches_minlen:
  "q \<in> set (matches r p) \<Longrightarrow> length (snd q) + minlen r \<le> length (snd p)"
proof (induction r p arbitrary: q rule: matches.induct)
  case (1 p)
  then show ?case by simp
next
  case (2 P prev)
  then show ?case by simp
next
  case (3 P prev c cs)
  then show ?case by (simp split: if_splits)
next
  case (4 a b p)
  from "4.prems" obtain m where m: "m \<in> set (matches a p)" "q \<in> set (matches b m)"
    by auto
  from "4.IH"(1)[OF m(1)] "4.IH"(2)[OF m(1) m(2)] show ?case
    by simp
next
  case (5 a b p)
  from "5.prems" have "q \<in> set (matches a p) \<or> q \<in> set (matches b p)"
    by simp
  then show ?case
  proof
    assume "q \<in> set (matches a p)"
    from "5.IH"(1)[OF this] show ?thesis by simp
  next
    assume "q \<in> set (matches b p)"
    from "5.IH"(2)[OF this] show ?thesis by simp
  qed
next
  case (6 a p)
  show ?case
  proof (cases "q = p")
    case True
    then show ?thesis by simp
  next
    case False
    from "6.prems" have "q \<in> set (concat (map (\<lambda>q. if length (snd q) < length (snd p)
        then matches (Star a) q else []) (matches a p)) @ [p])"
      by (simp only: matches.simps(6)[of a p])
    with False obtain m where m: "m \<in> set (matches a p)"
      "length (snd m) < length (snd p)" "q \<in> set (matches (Star a) m)"
      by (auto split: if_splits)
    from "6.IH"(2)[OF m] m(2) show ?thesis by simp
  qed
next
  case (7 prev rest)
  then show ?case by (simp split: if_splits)
next
  case (8 prev rest)
  then show ?case by (simp split: if_splits)
next
  case (9 prev rest)
  then show ?case by (simp split: if_splits)
qed

lemma findall_from_minlen:
  "0 < minlen r \<Longrightarrow> m \<in> set (findall_from r p) \<Longrightarrow> minlen r \<le> length m"
proof (induction r p arbitrary: m rule: findall_from.induct)
  case (1 r prev rest)
  show ?case
  proof (cases "matches r (prev, rest)")
    case Nil
    with "1.prems" "1.IH"(1) show ?thesis
      by (cases rest) (auto simp: findall_from.simps[of r prev])
  next
    case (Cons q qs)
    then have q: "length (snd q) + minlen r \<le> length rest"
      using matches_minlen[of q r "(prev, rest)"] by simp
    with "1.prems"(1) have lt: "length (snd q) < length rest" by simp
    from "1.prems"(2) Cons lt
    have "m = take (length rest - length (snd q)) rest \<or> m \<in> set (findall_from r q)"
      by (simp add: findall_from.simps[of r prev rest])
    then show ?thesis
    proof
      assume "m = take (length rest - length (snd q)) rest"
      with q show ?thesis by simp
    next
      assume "m \<in> set (findall_from r q)"
      from "1.IH"(2)[OF Cons lt "1.prems"(1) this] show ?thesis .
    qed
  qed
qed

lemma findall_minlen: "0 < minlen r \<Longrightarrow> m \<in> set (findall r s) \<Longrightarrow> minlen r \<le> length m"
  unfolding findall_def by (rule findall_from_minlen)

lemma minlen_lit [simp]: "minlen (lit s) = length s"
  by (induction s) (simp_all add: lit_def chr_def)

lemma minlen_action_rx: "minlen action_rx = 4"
  by (simp add: action_rx_def)

lemma minlen_domain_rx: "minlen domain_rx = 4"
  by (simp add: domain_rx_def eval_nat_numeral)

lemma minlen_quoted_rx: "minlen quoted_rx = 3"
  by (simp add: quoted_rx_def plus_def)

lemma job_high_nonempty: "kw \<in> set (job_high (get_enhanced_job_keywords rk)) \<Longrightarrow> kw \<noteq> []"
proof -
  assume "kw \<in> set (job_high (get_enhanced_job_keywords rk))"
  then consider "kw \<in> set (findall action_rx (lower (job_task rk)))"
    | m where "m \<in> set (findall quoted_rx (job_task rk))" "kw = butlast (tl m)"
    by (auto simp: get_enhanced_job_keywords_def Let_def)
  then show ?thesis
  proof cases
    case 1
    then show ?thesis using findall_minlen[of action_rx kw] by (auto simp: minlen_action_rx)
  next
    case 2
    then have "3 \<le> length m" using findall_minlen[of quoted_rx m] by (simp add: minlen_quoted_rx)
    then have "length (butlast (tl m)) \<noteq> 0" by simp
    then have "butlast (tl m) \<noteq> []" unfolding length_0_conv .
    with 2(2) show ?thesis by simp
  qed
qed

lemma job_medium_nonempty: "kw \<in> set (job_medium (get_enhanced_job_keywords rk)) \<Longrightarrow> kw \<noteq> []"
  by (auto simp: get_enhanced_job_keywords_def Let_def)

lemma job_score_empty: "job_score rk [] = 0"
proof -
  have "filter (\<lambda>kw. contains kw []) (job_high (get_enhanced_job_keywords rk)) = []"
    by (auto simp: filter_empty_conv dest: job_high_nonempty)
  moreover have "filter (\<lambda>kw. contains kw []) (job_medium (get_enhanced_job_keywords rk)) = []"
    by (auto simp: filter_empty_conv dest: job_medium_nonempty)
  ultimately show ?thesis by (simp add: job_score_def Let_def)
qed


lemma persona_score_empty: "persona_score rk [] = 0"
  by (simp add: persona_score_def get_enhanced_persona_keywords_def Let_def)

section \<open>Properties of the relevance scorer\<close>

text \<open>
  Claim C2. For every text, document label, persona role and job task,
  \<open>calculate_enhanced_relevance_score\<close> returns the maximum of 0 and the weighted sum
  \<open>0.3 * persona_score + 0.5 * job_score + 0.2 * context_bonus + penalty\<close> divided by
  \<open>max (word_count / 100) 1\<close>; in particular the score is never negative, whatever the
  text (empty or made of punctuation only).
\<close>

theorem calculate_enhanced_relevance_score_formula:
  "calculate_enhanced_relevance_score rk t d =
     max 0 ((3 / 10 * of_int (persona_score rk (lower t))
             + 5 / 10 * of_int (job_score rk (lower t))
             + 2 / 10 * of_int (context_bonus rk (lower t) (lower d))
             + of_int (penalty rk (lower t) (lower d)))
            / max (of_nat (length (split_ws t)) / 100) 1)
   \<and> 0 \<le> calculate_enhanced_relevance_score rk t d"
proof -
  have "weighted_sum rk (lower t) (lower d) =
      3 / 10 * of_int (persona_score rk (lower t))
      + 5 / 10 * of_int (job_score rk (lower t))
      + 2 / 10 * of_int (context_bonus rk (lower t) (lower d))
      + of_int (penalty rk (lower t) (lower d))"
    unfolding weighted_sum_def by (simp only: mult.commute)
  then show ?thesis
    unfolding calculate_enhanced_relevance_score_def text_length_def Let_def
    by (simp only: max.commute[of _ 0] max.cobounded1 simp_thms)
qed

lemma filter_contains_cong:
  "\<forall>kw\<in>set ks. contains kw a = contains kw b \<Longrightarrow>
   filter (\<lambda>kw. contains kw a) ks = filter (\<lambda>kw. contains kw b) ks"
  by (rule filter_cong) auto


lemma persona_score_cong:
  assumes "\<forall>kw\<in>set (scored_keywords rk). contains kw a = contains kw b"
  shows "persona_score rk a = persona_score rk b"
proof -
  let ?pk = "get_enhanced_persona_keywords rk"
  from assms have "\<forall>kw\<in>set (high ?pk). contains kw a = contains kw b"
    "\<forall>kw\<in>set (medium ?pk). contains kw a = contains kw b"
    "\<forall>kw\<in>set (low ?pk). contains kw a = contains kw b"
    by (simp_all add: scored_keywords_def Let_def)
  then show ?thesis
    unfolding persona_score_def Let_def by (simp only: filter_contains_cong)
qed

lemma job_score_cong:
  assumes "\<forall>kw\<in>set (scored_keywords rk). contains kw a = contains kw b"
  shows "job_score rk a = job_score rk b"
proof -
  let ?jk = "get_enhanced_job_keywords rk"
  from assms have "\<forall>kw\<in>set (job_high ?jk). contains kw a = contains kw b"
    "\<forall>kw\<in>set (job_medium ?jk). contains kw a = contains kw b"
    by (simp_all add: scored_keywords_def Let_def)
  then show ?thesis
    unfolding job_score_def Let_def by (simp only: filter_contains_cong)
qed

lemma sum_const_filter:
  assumes "distinct ks"
  shows "sum_list (map (\<lambda>kw. c) (filter P ks)) = c * int (card {kw \<in> set ks. P kw})"
proof -
  have "sum_list (map (\<lambda>kw. c) (filter P ks)) = c * int (length (filter P ks))"
    by (induction ks) (simp_all add: algebra_simps)
  moreover from assms have "length (filter P ks) = card (set (filter P ks))"
    using distinct_card[of "filter P ks"] by simp
  moreover have "set (filter P ks) = {kw \<in> set ks. P kw}" by simp
  ultimately show ?thesis by simp
qed

lemma persona_keywords_distinct:
  "distinct (high (get_enhanced_persona_keywords rk))"
  "distinct (medium (get_enhanced_persona_keywords rk))"
  "distinct (low (get_enhanced_persona_keywords rk))"
  by (simp_all add: get_enhanced_persona_keywords_def)

lemma job_keywords_distinct:
  "distinct (job_high (get_enhanced_job_keywords rk))"
  "distinct (job_medium (get_enhanced_job_keywords rk))"
  by (simp_all add: get_enhanced_job_keywords_def Let_def)

lemma count_in_empty:
  "count_in academic_terms [] = 0" "count_in business_terms [] = 0" "count_in travel_terms [] = 0"
  by (simp_all add: count_in_def academic_terms_def business_terms_def travel_terms_def)

lemma any_in_empty:
  "\<not> any_in vegetarian_terms []" "\<not> any_in meat_terms []" "\<not> any_in gluten_free_terms []"
  "\<not> any_in gluten_terms []" "\<not> any_in buffet_terms []"
  by (simp_all add: any_in_def vegetarian_terms_def meat_terms_def gluten_free_terms_def
      gluten_terms_def buffet_terms_def)

lemma context_rules_empty:
  "context_rules rk [] doc_lower =
     ((if contains ''dinner'' (lower (job_task rk)) \<and> contains ''dinner'' doc_lower then 5 else 0)
      + (if contains ''breakfast'' (lower (job_task rk)) \<and> contains ''breakfast'' doc_lower then 5 else 0)
      + (if contains ''lunch'' (lower (job_task rk)) \<and> contains ''lunch'' doc_lower then 5 else 0),
      (if contains ''dinner'' (lower (job_task rk)) \<and> contains ''breakfast'' doc_lower then - 3 else 0))"
  unfolding context_rules_def Let_def
  by (simp add: count_in_empty any_in_empty)

lemma split_ws_empty: "split_ws [] = []"
  by (simp add: split_ws_def)

lemma score_empty_text:
  "calculate_enhanced_relevance_score rk [] label =
     max (of_int (fst (context_rules rk [] (lower label))) * (2 / 10)
          + of_int (snd (context_rules rk [] (lower label)))) 0"
  by (simp add: calculate_enhanced_relevance_score_def weighted_sum_def text_length_def Let_def
      lower_def[of "[]"] persona_score_empty job_score_empty split_ws_empty context_bonus_def penalty_def)





text \<open>
  Claim C9, as stated: repeating a keyword that is already present in the text does not
  increase the keyword score. With the job task \<^verbatim>\<open>Create a "dinner menu"\<close> the quoted phrase
  "dinner menu" is a high job keyword and "dinner" a medium one, and "menu" is a keyword of
  the persona. The text "menu dinner" contains "menu" and has job score 4; repeating "menu"
  gives "menu dinner menu", in which "dinner menu" is now present, and the job score is 29.
\<close>

theorem keyword_repetition_counterexample:
  "''menu'' \<in> set (scored_keywords
      \<lparr>persona_role = ''Food Contractor'', job_task = ''Create a '' @ [CHR 0x22] @ ''dinner menu'' @ [CHR 0x22]\<rparr>) \<and>
   contains ''menu'' (lower ''menu dinner'') \<and>
   job_score
     \<lparr>persona_role = ''Food Contractor'', job_task = ''Create a '' @ [CHR 0x22] @ ''dinner menu'' @ [CHR 0x22]\<rparr>
     (lower ''menu dinner'') = 4 \<and>
   job_score
     \<lparr>persona_role = ''Food Contractor'', job_task = ''Create a '' @ [CHR 0x22] @ ''dinner menu'' @ [CHR 0x22]\<rparr>
     (lower ''menu dinner menu'') = 29"
  by code_simp

text \<open>
  Claim C9, amended: within each tier a persona or job keyword counts once per call,
  according to whether it occurs in the lowercased text, however often it occurs: the
  persona score is 9, 4 and 1 times the number of high, medium and low persona keywords
  present, the job score 25 and 4 times the number of high and medium job keywords present
  (a keyword listed in two tiers counts in both). Hence two texts in which the same keywords
  are present have the same persona and job scores: repeating a keyword leaves the scores
  unchanged as long as the repetition does not make another keyword present.
\<close>

theorem keyword_scores_presence_only:
  "persona_score rk (lower t) =
      9 * int (card {kw \<in> set (high (get_enhanced_persona_keywords rk)). contains kw (lower t)})
    + 4 * int (card {kw \<in> set (medium (get_enhanced_persona_keywords rk)). contains kw (lower t)})
    + int (card {kw \<in> set (low (get_enhanced_persona_keywords rk)). contains kw (lower t)})
   \<and> job_score rk (lower t) =
      25 * int (card {kw \<in> set (job_high (get_enhanced_job_keywords rk)). contains kw (lower t)})
    + 4 * int (card {kw \<in> set (job_medium (get_enhanced_job_keywords rk)). contains kw (lower t)})
   \<and> ((\<forall>kw\<in>set (scored_keywords rk). contains kw (lower t) = contains kw (lower t')) \<longrightarrow>
        persona_score rk (lower t) = persona_score rk (lower t') \<and>
        job_score rk (lower t) = job_score rk (lower t'))"
proof (intro conjI impI)
  show "persona_score rk (lower t) =
      9 * int (card {kw \<in> set (high (get_enhanced_persona_keywords rk)). contains kw (lower t)})
    + 4 * int (card {kw \<in> set (medium (get_enhanced_persona_keywords rk)). contains kw (lower t)})
    + int (card {kw \<in> set (low (get_enhanced_persona_keywords rk)). contains kw (lower t)})"
    unfolding persona_score_def Let_def
    by (simp add: sum_const_filter[OF persona_keywords_distinct(1)]
        sum_const_filter[OF persona_keywords_distinct(2)]
        sum_const_filter[OF persona_keywords_distinct(3)])
  show "job_score rk (lower t) =
      25 * int (card {kw \<in> set (job_high (get_enhanced_job_keywords rk)). contains kw (lower t)})
    + 4 * int (card {kw \<in> set (job_medium (get_enhanced_job_keywords rk)). contains kw (lower t)})"
    unfolding job_score_def Let_def
    by (simp add: sum_const_filter[OF job_keywords_distinct(1)]
        sum_const_filter[OF job_keywords_distinct(2)])
next
  assume h: "\<forall>kw\<in>set (scored_keywords rk). contains kw (lower t) = contains kw (lower t')"
  from persona_score_cong[OF h] show "persona_score rk (lower t) = persona_score rk (lower t')" .
  from job_score_cong[OF h] show "job_score rk (lower t) = job_score rk (lower t')" .
qed

theorem keyword_scores_presence_only_witness:
  "list_all (\<lambda>kw. contains kw (lower ''Dinner menu'') = contains kw (lower ''Dinner menu, dinner MENU''))
      (scored_keywords food_contractor_ranker) \<and>
   persona_score food_contractor_ranker (lower ''Dinner menu'') = persona_score food_contractor_ranker (lower ''Dinner menu, dinner MENU'') \<and>
   job_score food_contractor_ranker (lower ''Dinner menu'') = job_score food_contractor_ranker (lower ''Dinner menu, dinner MENU'')"
proof -
  have h: "\<forall>kw\<in>set (scored_keywords food_contractor_ranker).
      contains kw (lower ''Dinner menu'') = contains kw (lower ''Dinner menu, dinner MENU'')"
    by code_simp
  with keyword_scores_presence_only[of food_contractor_ranker "''Dinner menu''"
      "''Dinner menu, dinner MENU''"]
  show ?thesis unfolding list_all_iff by blast
qed

text \<open>
  Claim C10, as stated: if the job task and the document label both contain "dinner" and the
  label does not contain "breakfast", the score of the empty text is 1. This fails when job
  and label also share "lunch": the lunch rule adds another 5 to the context bonus and the
  score is 2.
\<close>

theorem empty_text_dinner_label_counterexample:
  "contains ''dinner'' ''lunch and dinner'' \<and> contains ''dinner'' ''lunch and dinner ideas'' \<and>
   \<not> contains ''breakfast'' ''lunch and dinner ideas'' \<and>
   calculate_enhanced_relevance_score
     \<lparr>persona_role = ''Food Contractor'', job_task = ''lunch and dinner''\<rparr> [] ''lunch and dinner ideas'' = 2"
  by (simp add: score_empty_text context_rules_empty lower_def lower_char_def)

text \<open>
  Claim C10, amended: if the lowercased job task and the lowercased document label both
  contain "dinner", the lowercased label does not contain "breakfast", and "lunch" does not
  occur in both of them, then the score of the empty text is 1: the score can be positive on
  the strength of the document label alone.
\<close>

theorem empty_text_dinner_label_score:
  assumes "contains ''dinner'' (lower (job_task rk))"
    and "contains ''dinner'' (lower label)"
    and "\<not> contains ''breakfast'' (lower label)"
    and "\<not> (contains ''lunch'' (lower (job_task rk)) \<and> contains ''lunch'' (lower label))"
  shows "calculate_enhanced_relevance_score rk [] label = 1"
  using assms by (auto simp add: score_empty_text context_rules_empty)

theorem empty_text_dinner_label_score_witness:
  "contains ''dinner'' (lower (job_task food_contractor_ranker)) \<and> contains ''dinner'' (lower ''Dinner Ideas.pdf'') \<and>
   \<not> contains ''breakfast'' (lower ''Dinner Ideas.pdf'') \<and>
   \<not> (contains ''lunch'' (lower (job_task food_contractor_ranker)) \<and> contains ''lunch'' (lower ''Dinner Ideas.pdf'')) \<and>
   calculate_enhanced_relevance_score food_contractor_ranker [] ''Dinner Ideas.pdf'' = 1"
proof -
  have h: "contains ''dinner'' (lower (job_task food_contractor_ranker))" "contains ''dinner'' (lower ''Dinner Ideas.pdf'')"
    "\<not> contains ''breakfast'' (lower ''Dinner Ideas.pdf'')"
    "\<not> (contains ''lunch'' (lower (job_task food_contractor_ranker)) \<and> contains ''lunch'' (lower ''Dinner Ideas.pdf''))"
    by (simp_all add: food_contractor_ranker_def lower_def lower_char_def)
  from empty_text_dinner_label_score[OF h] h show ?thesis by simp
qed




section \<open>Properties of the ranker\<close>

lemma same_content_refl [simp]: "same_content a a"
  by (simp add: same_content_def)

lemma same_content_trans: "same_content a b \<Longrightarrow> same_content b c \<Longrightarrow> same_content a c"
  by (simp add: same_content_def)

lemma score_section_content: "same_content (score_section rk sims i s) s"
  by (simp add: score_section_def same_content_def Let_def)

lemma score_section_rank: "importance_rank (score_section rk sims i s) = importance_rank s"
  by (simp add: score_section_def Let_def)

lemma score_section_Some: "relevance_score (score_section rk sims i s) \<noteq> None"
  by (simp add: score_section_def Let_def)

lemma score_section_cong:
  "same_content a b \<Longrightarrow>
   relevance_score (score_section rk sims i a) = relevance_score (score_section rk sims i b)"
  by (simp add: score_section_def same_content_def Let_def)

lemma score_loop_outside: "r \<notin> set rs \<Longrightarrow> score_loop rk sims i rs h r = h r"
  by (induction rs arbitrary: i h) auto

lemma score_loop_content: "same_content (score_loop rk sims i rs h r) (h r)"
proof (induction rs arbitrary: i h)
  case Nil
  show ?case by simp
next
  case (Cons a rs)
  have "same_content (score_loop rk sims (Suc i) rs (h(a := score_section rk sims i (h a))) r)
          ((h(a := score_section rk sims i (h a))) r)"
    by (rule Cons.IH)
  moreover have "same_content ((h(a := score_section rk sims i (h a))) r) (h r)"
    by (simp add: score_section_content)
  ultimately show ?case by (simp add: same_content_trans)
qed

lemma score_loop_rank: "importance_rank (score_loop rk sims i rs h r) = importance_rank (h r)"
proof (induction rs arbitrary: i h)
  case Nil
  show ?case by simp
next
  case (Cons a rs)
  show ?case by (simp add: Cons.IH score_section_rank)
qed

lemma score_loop_Some: "r \<in> set rs \<Longrightarrow> relevance_score (score_loop rk sims i rs h r) \<noteq> None"
proof (induction rs arbitrary: i h)
  case Nil
  then show ?case by simp
next
  case (Cons a rs)
  show ?case
  proof (cases "r \<in> set rs")
    case True
    then show ?thesis by (simp add: Cons.IH)
  next
    case False
    with Cons.prems have "r = a" by simp
    with False show ?thesis by (simp add: score_loop_outside score_section_Some)
  qed
qed

lemma rank_loop_outside: "r \<notin> set rs \<Longrightarrow> rank_loop k rs h r = h r"
  by (induction rs arbitrary: k h) auto

lemma rank_loop_score: "relevance_score (rank_loop k rs h r) = relevance_score (h r)"
  by (induction rs arbitrary: k h) auto

lemma rank_loop_content: "same_content (rank_loop k rs h r) (h r)"
proof (induction rs arbitrary: k h)
  case Nil
  show ?case by simp
next
  case (Cons a rs)
  have "same_content (rank_loop (Suc k) rs (h(a := (h a)\<lparr>importance_rank := Some k\<rparr>)) r)
          ((h(a := (h a)\<lparr>importance_rank := Some k\<rparr>)) r)"
    by (rule Cons.IH)
  moreover have "same_content ((h(a := (h a)\<lparr>importance_rank := Some k\<rparr>)) r) (h r)"
    by (simp add: same_content_def)
  ultimately show ?case by (simp add: same_content_trans)
qed

lemma rank_loop_ranks:
  "distinct rs \<Longrightarrow> map (\<lambda>r. importance_rank (rank_loop k rs h r)) rs = map Some [k..<k + length rs]"
proof (induction rs arbitrary: k h)
  case Nil
  show ?case by simp
next
  case (Cons a rs)
  from Cons.prems have a: "a \<notin> set rs" and d: "distinct rs" by simp_all
  have "importance_rank (rank_loop (Suc k) rs (h(a := (h a)\<lparr>importance_rank := Some k\<rparr>)) a) = Some k"
    by (simp add: rank_loop_outside[OF a])
  moreover have "map (\<lambda>r. importance_rank
        (rank_loop (Suc k) rs (h(a := (h a)\<lparr>importance_rank := Some k\<rparr>)) r)) rs
      = map Some [Suc k..<Suc k + length rs]"
    by (rule Cons.IH[OF d])
  moreover have "[k..<k + length (a # rs)] = k # [Suc k..<Suc k + length rs]"
    by (subst upt_rec) simp
  ultimately show ?case by simp
qed

lemma sort_key_desc_sorted:
  "sorted_wrt (\<ge>) (map (f :: 'a \<Rightarrow> rat) (sort_key (\<lambda>r. - f r) xs))"
proof -
  have "sorted (map (\<lambda>r. - f r) (sort_key (\<lambda>r. - f r) xs))"
    by (rule sorted_sort_key)
  then have "sorted_wrt (\<le>) (map uminus (map f (sort_key (\<lambda>r. - f r) xs)))"
    by (simp add: comp_def)
  then show ?thesis
    by (simp add: sorted_wrt_map)
qed

lemma sort_key_desc_stable:
  "filter (\<lambda>r. (f :: 'a \<Rightarrow> rat) r = v) (sort_key (\<lambda>r. - f r) xs) = filter (\<lambda>r. f r = v) xs"
proof -
  have "filter (\<lambda>r. - f r = - v) (sort_key (\<lambda>r. - f r) xs) = filter (\<lambda>r. - f r = - v) xs"
    by (rule sort_key_stable)
  then show ?thesis by simp
qed

lemma score_section_zero:
  "relevance_score (score_section rk (replicate n 0) i s) = Some (keyword_only_score rk s)"
  by (simp add: score_section_def keyword_only_score_def Let_def)

lemma score_loop_zero:
  "r \<in> set rs \<Longrightarrow>
   relevance_score (score_loop rk (replicate n 0) i rs h r) = Some (keyword_only_score rk (h r))"
proof (induction rs arbitrary: i h)
  case Nil
  then show ?case by simp
next
  case (Cons a rs)
  let ?h = "h(a := score_section rk (replicate n 0) i (h a))"
  have kw: "keyword_only_score rk (?h r) = keyword_only_score rk (h r)"
    using score_section_content[of rk "replicate n 0" i "h a"]
    by (simp add: keyword_only_score_def same_content_def)
  show ?case
  proof (cases "r \<in> set rs")
    case True
    have "relevance_score (score_loop rk (replicate n 0) i (a # rs) h r)
        = relevance_score (score_loop rk (replicate n 0) (Suc i) rs ?h r)"
      by simp
    also have "\<dots> = Some (keyword_only_score rk (?h r))"
      by (rule Cons.IH[OF True])
    also have "\<dots> = Some (keyword_only_score rk (h r))"
      by (simp only: kw)
    finally show ?thesis .
  next
    case False
    with Cons.prems have ra: "r = a" by simp
    from False have "score_loop rk (replicate n 0) (Suc i) rs ?h r = ?h r"
      by (rule score_loop_outside)
    with ra show ?thesis by (simp add: score_section_zero)
  qed
qed

lemma rank_sections_Inr:
  assumes "refs \<noteq> []"
  shows "rank_sections vec rk refs h =
    (let sims = (case vec (map (\<lambda>r. section_text (h r)) refs @ [context_text rk]) of
                   Inr similarities \<Rightarrow> similarities
                 | Inl e \<Rightarrow> replicate (length refs) 0);
         h1 = score_loop rk sims 0 refs h;
         ranked = sort_key (\<lambda>r. - get_or (relevance_score (h1 r)) 0) refs
     in Inr (rank_loop 1 ranked h1, ranked))"
proof -
  have "\<not> list_ex (\<lambda>r. relevance_score (score_loop rk sims 0 refs h r) = None) refs" for sims
    by (simp add: list_ex_iff score_loop_Some)
  with assms show ?thesis
    by (simp add: rank_sections_def Let_def cong: sum.case_cong)
qed

text \<open>
  Claim C1. For a list of distinct section records, \<open>rank_sections\<close> returns the sections
  ordered so that the relevance scores are non-increasing; sections with equal scores keep
  the order they had in the input (for every score, the sections with that score appear in
  the output in their input order); and the importance ranks, read in output order, are
  exactly 1, 2, ..., N, where N is the number of input sections. The empty list is included:
  it is returned as it is.
\<close>

theorem rank_sections_sorted_stable_dense:
  assumes "distinct refs"
  shows "\<exists>h' out scores. rank_sections vec rk refs h = Inr (h', out) \<and>
     length out = length refs \<and>
     map (\<lambda>r. relevance_score (h' r)) out = map Some scores \<and>
     sorted_wrt (\<ge>) scores \<and>
     (\<forall>v. filter (\<lambda>r. relevance_score (h' r) = Some v) out
          = filter (\<lambda>r. relevance_score (h' r) = Some v) refs) \<and>
     map (\<lambda>r. importance_rank (h' r)) out = map Some [1..<Suc (length refs)]"
proof (cases "refs = []")
  case True
  then show ?thesis by (simp add: rank_sections_def)
next
  case False
  define sims where "sims = (case vec (map (\<lambda>r. section_text (h r)) refs @ [context_text rk]) of
                   Inr similarities \<Rightarrow> similarities
                 | Inl e \<Rightarrow> replicate (length refs) 0)"
  define h1 where "h1 = score_loop rk sims 0 refs h"
  define f where "f = (\<lambda>r. get_or (relevance_score (h1 r)) 0)"
  define ranked where "ranked = sort_key (\<lambda>r. - f r) refs"
  define h2 where "h2 = rank_loop 1 ranked h1"
  have eq: "rank_sections vec rk refs h = Inr (h2, ranked)"
    unfolding rank_sections_Inr[OF False] sims_def h1_def ranked_def f_def h2_def Let_def ..
  have len: "length ranked = length refs" by (simp add: ranked_def)
  have set: "set ranked = set refs" by (simp add: ranked_def)
  have sc: "relevance_score (h2 r) = Some (f r)" if "r \<in> set refs" for r
  proof -
    from that have "relevance_score (h1 r) \<noteq> None"
      unfolding h1_def by (rule score_loop_Some)
    then show ?thesis
      by (auto simp: h2_def rank_loop_score f_def get_or_def)
  qed
  have scores: "map (\<lambda>r. relevance_score (h2 r)) ranked = map Some (map f ranked)"
    using sc set by simp
  have sorted: "sorted_wrt (\<ge>) (map f ranked)"
    unfolding ranked_def by (rule sort_key_desc_sorted)
  have stable: "filter (\<lambda>r. relevance_score (h2 r) = Some v) ranked
      = filter (\<lambda>r. relevance_score (h2 r) = Some v) refs" for v
  proof -
    have "filter (\<lambda>r. relevance_score (h2 r) = Some v) ranked = filter (\<lambda>r. f r = v) ranked"
      by (rule filter_cong) (simp_all add: sc set)
    also have "\<dots> = filter (\<lambda>r. f r = v) refs"
      unfolding ranked_def by (rule sort_key_desc_stable)
    also have "\<dots> = filter (\<lambda>r. relevance_score (h2 r) = Some v) refs"
      by (rule filter_cong) (simp_all add: sc)
    finally show ?thesis .
  qed
  from assms have "distinct ranked" by (simp add: ranked_def)
  then have "map (\<lambda>r. importance_rank (h2 r)) ranked = map Some [1..<1 + length ranked]"
    unfolding h2_def by (rule rank_loop_ranks)
  with len have ranks: "map (\<lambda>r. importance_rank (h2 r)) ranked = map Some [1..<Suc (length refs)]"
    by simp
  from eq len scores sorted stable ranks show ?thesis by blast
qed

theorem rank_sections_sorted_stable_dense_witness:
  "distinct [0, 1, 2 :: ref] \<and>
   (\<exists>h' out scores.
     rank_sections (\<lambda>ts. Inr [1 / 10, 3 / 10, 2 / 10]) food_contractor_ranker [0, 1, 2] example_store
       = Inr (h', out) \<and>
     length out = length [0, 1, 2 :: ref] \<and>
     map (\<lambda>r. relevance_score (h' r)) out = map Some scores \<and>
     sorted_wrt (\<ge>) scores \<and>
     (\<forall>v. filter (\<lambda>r. relevance_score (h' r) = Some v) out
          = filter (\<lambda>r. relevance_score (h' r) = Some v) [0, 1, 2]) \<and>
     map (\<lambda>r. importance_rank (h' r)) out = map Some [1..<Suc (length [0, 1, 2 :: ref])])"
proof -
  have d: "distinct [0, 1, 2 :: ref]" by simp
  from rank_sections_sorted_stable_dense[OF d, of "\<lambda>ts. Inr [1 / 10, 3 / 10, 2 / 10]" food_contractor_ranker example_store] d
  show ?thesis by blast
qed

text \<open>
  Claim C7. If the vectorization step raises an exception, \<open>rank_sections\<close> still returns a
  result (no error is propagated), every similarity counts as 0, and the relevance score of
  each section is 0.6 times its keyword score, plus 0.1 when its title has at least two words
  and does not start with "Content".
\<close>

theorem rank_sections_vectorizer_failure:
  assumes "vec (map (\<lambda>r. section_text (h r)) refs @ [context_text rk]) = Inl e"
  shows "\<exists>h' out. rank_sections vec rk refs h = Inr (h', out) \<and>
     (\<forall>r\<in>set refs. relevance_score (h' r) = Some (keyword_only_score rk (h r)))"
proof (cases "refs = []")
  case True
  then show ?thesis by (simp add: rank_sections_def)
next
  case False
  define h1 where "h1 = score_loop rk (replicate (length refs) 0) 0 refs h"
  define ranked where "ranked = sort_key (\<lambda>r. - get_or (relevance_score (h1 r)) 0) refs"
  have eq: "rank_sections vec rk refs h = Inr (rank_loop 1 ranked h1, ranked)"
    unfolding rank_sections_Inr[OF False] h1_def ranked_def Let_def assms by simp
  have "relevance_score (rank_loop 1 ranked h1 r) = Some (keyword_only_score rk (h r))"
    if "r \<in> set refs" for r
    using score_loop_zero[OF that, of rk "length refs" 0 h]
    by (simp add: rank_loop_score h1_def)
  with eq show ?thesis by blast
qed

theorem rank_sections_vectorizer_failure_witness:
  "\<exists>h' out. rank_sections (\<lambda>ts. Inl VectorizerError) food_contractor_ranker [0, 1] example_store = Inr (h', out) \<and>
     relevance_score (h' 0) = Some (keyword_only_score food_contractor_ranker (example_store 0)) \<and>
     relevance_score (h' 1) = Some (keyword_only_score food_contractor_ranker (example_store 1))"
proof -
  have v: "(\<lambda>ts. Inl VectorizerError)
      (map (\<lambda>r. section_text (example_store r)) [0, 1] @ [context_text food_contractor_ranker])
      = Inl VectorizerError" by simp
  from rank_sections_vectorizer_failure[of "\<lambda>ts. Inl VectorizerError" example_store "[0, 1]" food_contractor_ranker VectorizerError, OF v]
  show ?thesis by auto
qed

text \<open>
  Claim C8. \<open>rank_sections\<close> updates the section records in place and returns a permutation
  of the references it was given: no section is added or dropped, the fields document,
  page_number, text, section_title and source of every record are unchanged, and records
  that are not in the input list are not touched at all.
\<close>

theorem rank_sections_frame:
  "\<exists>h' out. rank_sections vec rk refs h = Inr (h', out) \<and> mset out = mset refs \<and>
     (\<forall>r. same_content (h' r) (h r)) \<and> (\<forall>r. r \<notin> set refs \<longrightarrow> h' r = h r)"
proof (cases "refs = []")
  case True
  then show ?thesis by (simp add: rank_sections_def)
next
  case False
  define sims where "sims = (case vec (map (\<lambda>r. section_text (h r)) refs @ [context_text rk]) of
                   Inr similarities \<Rightarrow> similarities
                 | Inl e \<Rightarrow> replicate (length refs) 0)"
  define h1 where "h1 = score_loop rk sims 0 refs h"
  define ranked where "ranked = sort_key (\<lambda>r. - get_or (relevance_score (h1 r)) 0) refs"
  have eq: "rank_sections vec rk refs h = Inr (rank_loop 1 ranked h1, ranked)"
    unfolding rank_sections_Inr[OF False] sims_def h1_def ranked_def Let_def ..
  have m: "mset ranked = mset refs" by (simp add: ranked_def)
  have c: "same_content (rank_loop 1 ranked h1 r) (h r)" for r
    using rank_loop_content[of 1 ranked h1 r] score_loop_content[of rk sims 0 refs h r]
    unfolding h1_def by (rule same_content_trans)
  have o: "rank_loop 1 ranked h1 r = h r" if "r \<notin> set refs" for r
  proof -
    from that have "r \<notin> set ranked" by (simp add: ranked_def)
    then have "rank_loop 1 ranked h1 r = h1 r" by (rule rank_loop_outside)
    also from that have "h1 r = h r" unfolding h1_def by (rule score_loop_outside)
    finally show ?thesis .
  qed
  from eq m c o show ?thesis by blast
qed

theorem rank_sections_frame_witness:
  "\<exists>h' out. rank_sections (\<lambda>ts. Inl VectorizerError) food_contractor_ranker [0, 1] example_store = Inr (h', out) \<and>
     mset out = mset [0, 1] \<and> same_content (h' 0) (example_store 0) \<and>
     (7 :: ref) \<notin> set [0, 1] \<and> h' 7 = example_store 7"
proof -
  have n: "(7 :: ref) \<notin> set [0, 1]" by simp
  from rank_sections_frame[of "\<lambda>ts. Inl VectorizerError" food_contractor_ranker "[0, 1]" example_store] n
  show ?thesis by blast
qed

section \<open>Properties of the subsection refiner\<close>

lemma length_strip: "length (strip s) \<le> length s"
proof -
  have "length (strip s) = length (dropWhile is_space (rev (dropWhile is_space s)))"
    by (simp add: strip_def)
  also have "\<dots> \<le> length (rev (dropWhile is_space s))" by (rule length_dropWhile_le)
  also have "\<dots> \<le> length s" by (simp add: length_dropWhile_le)
  finally show ?thesis .
qed

lemma length_slice_to: "length (slice_to xs k) \<le> length xs"
  by (simp add: slice_to_def)

lemma length_slice_to_nonneg: "0 \<le> k \<Longrightarrow> int (length (slice_to xs k)) \<le> k"
  by (simp add: slice_to_def)

lemma length_assemble:
  "int (length res) \<le> L + 2 \<Longrightarrow> int (length (assemble L res ps)) \<le> L + 3"
proof (induction L res ps rule: assemble.induct)
  case (1 L res)
  then show ?case by simp
next
  case (2 L res score para rest)
  show ?case
  proof (cases "int (length res) + int (length para) \<le> L")
    case True
    then have "int (length (res @ para @ [CHR 0x0A, CHR 0x0A])) \<le> L + 2" by simp
    from "2.IH"[OF True this] True show ?thesis by simp
  next
    case False
    define remaining where "remaining = L - int (length res)"
    define partial where "partial = slice_to para remaining"
    show ?thesis
    proof (cases "remaining > 100")
      case True
      then have p: "int (length partial) \<le> remaining"
        unfolding partial_def by (simp add: length_slice_to_nonneg)
      have q: "length (slice_to partial k) \<le> length partial" for k
        by (rule length_slice_to)
      have a: "int (length (res @ slice_to partial k)) \<le> L + 3" for k
        using p q[of k] by (simp add: remaining_def)
      have b: "int (length (res @ partial @ ''...'')) \<le> L + 3"
        using p by (simp add: remaining_def)
      from False True a b show ?thesis
        by (simp add: Let_def remaining_def[symmetric] partial_def[symmetric] del: length_append)
    next
      case F2: False
      with False "2.prems" show ?thesis
        by (simp add: Let_def remaining_def[symmetric])
    qed
  qed
qed

text \<open>
  Claim C3. For every text and every length budget L of at least 1, the string returned by
  \<open>extract_refined_subsection\<close> has at most L + 3 characters: L plus the three characters
  of the ellipsis marker.
\<close>

theorem extract_refined_subsection_length:
  assumes "1 \<le> L"
  shows "int (length (extract_refined_subsection rk t L)) \<le> L + 3"
proof (cases "int (length t) \<le> L")
  case True
  with length_strip[of t] show ?thesis
    by (simp add: extract_refined_subsection_def)
next
  case False
  define ps where "ps = (let paragraphs = filter (\<lambda>p. p \<noteq> []) (map strip (split_paragraphs t));
             paragraphs = (if paragraphs = []
                           then filter (\<lambda>p. p \<noteq> []) (map strip (split_lines t))
                           else paragraphs);
             best_paragraphs =
               map (\<lambda>paragraph. (calculate_enhanced_relevance_score rk paragraph [], paragraph))
                   (filter (\<lambda>paragraph. length paragraph > 30) paragraphs)
         in sort_key (\<lambda>x. - fst x) best_paragraphs)"
  have eq: "extract_refined_subsection rk t L =
      (if strip (assemble L [] ps) \<noteq> [] then strip (assemble L [] ps)
       else slice_to t L @ ''...'')"
    using False by (simp add: extract_refined_subsection_def ps_def Let_def)
  from assms have "int (length (assemble L [] ps)) \<le> L + 3"
    by (intro length_assemble) simp
  with length_strip[of "assemble L [] ps"]
  have a: "int (length (strip (assemble L [] ps))) \<le> L + 3" by simp
  from assms have b: "int (length (slice_to t L @ ''...'')) \<le> L + 3"
    using length_slice_to_nonneg[of L t] by simp
  from a b show ?thesis unfolding eq by (simp del: length_append)
qed

theorem extract_refined_subsection_length_witness:
  "(1 :: int) \<le> 1 \<and>
   int (length (extract_refined_subsection food_contractor_ranker ''Lentil soup'' 1)) \<le> 1 + 3"
proof -
  have h: "(1 :: int) \<le> 1" by simp
  from extract_refined_subsection_length[OF h, of food_contractor_ranker "''Lentil soup''"] show ?thesis by simp
qed

section \<open>Properties of the text extractor\<close>

subsection \<open>The generated title is never empty\<close>












subsection \<open>Pages without a header\<close>




















subsection \<open>The body of a detected section\<close>


end
